theory Spec2Isabelle
  imports Complex_Main "HOL-Library.Sublist"
begin

section \<open>The recommendation service of \<open>src/app/main.py\<close>\<close>

text \<open>
  The module keeps three process-wide variables, \<open>vectorizer\<close>, \<open>new_df\<close> and
  \<open>similarity\<close>, set once by the \<open>try\<close>/\<open>except\<close> statement at import time and read by
  every endpoint. The model passes them around as a record.

  Modelling decisions, each visible in the definitions below:
  \<^item> \<open>new_df\<close> is the \<open>title\<close> column of the data frame in row order (no other column is
    ever read); the frame carries the default index \<open>0 .. N-1\<close>, so an index label is a row
    position; titles are strings. The sentinel \<open>pd.DataFrame()\<close> is the empty column, and
    \<open>new_df.empty\<close> is \<open>new_df = []\<close>. The sentinel frame has no \<open>title\<close> column at all:
    \<open>recommend\<close> is modelled for frames that have one, and the endpoint calls it for no
    other.
  \<^item> a string is a sequence of code points below 256, one \<open>char\<close> for each.
  \<^item> \<open>similarity\<close> is a list of rows, \<open>None\<close> for Python's \<open>None\<close>. Scores are taken from
    a linear order (floating-point numbers without NaN); the concrete examples use \<open>real\<close>.
  \<^item> an exception is a value of type \<open>exn\<close>; a function that may raise returns
    \<open>exn + 'a\<close> with \<open>Inl\<close> for the exception.
\<close>

subsection \<open>Exceptions, messages, responses\<close>

datatype exn = FileNotFoundError | DecodeError | KeyError string | IndexError | TypeError

text \<open>A message is a plain string, or an f-string ending in \<open>{e}\<close> for a caught exception.\<close>

datatype message = Plain string | Formatted string exn

text \<open>The dictionaries the endpoints return, one constructor per shape.\<close>

datatype response =
    Error message
  | Recommended "string list" string
  | Movies "string list" nat
  | Found string "string list" nat

record health =
  status :: string
  message :: string
  model_status :: string
  movies_count :: nat

subsection \<open>The module-level state and the load at import time\<close>

record ('v, 'a) globals =
  vectorizer :: "'v option"
  new_df :: "string list"
  similarity :: "'a list list option"

text \<open>
  What \<open>joblib.load\<close> returns for a decodable file: a dictionary read at the keys
  \<open>vectorizer\<close>, \<open>dataframe\<close> and \<open>similarity_matrix\<close>. A field is \<open>None\<close> when the key is
  absent. Under a key that is present, the vectorizer and the matrix may be Python's
  \<open>None\<close> (the inner \<open>None\<close>), which the load assigns like any other value; the field
  \<open>p_dataframe\<close> holds the \<open>title\<close> column of the frame that \<open>pd.DataFrame\<close> builds from the
  stored value (the empty column for a stored \<open>None\<close>).
\<close>

record ('v, 'a) pickled =
  p_vectorizer :: "'v option option"
  p_dataframe :: "string list option"
  p_similarity_matrix :: "'a list list option option"

text \<open>What is found at \<open>model_path\<close>.\<close>

datatype ('v, 'a) artifact_file =
    No_such_file
  | Not_decodable
  | Decodable "('v, 'a) pickled"

text \<open>The suite of the \<open>try\<close> statement (lines 35 to 40): the first failing step raises.\<close>

definition load_body :: "('v, 'a) artifact_file \<Rightarrow> exn + ('v, 'a) globals" where
  "load_body f =
     (case f of
        No_such_file \<Rightarrow> Inl FileNotFoundError
      | Not_decodable \<Rightarrow> Inl DecodeError
      | Decodable d \<Rightarrow>
          (case p_vectorizer d of
             None \<Rightarrow> Inl (KeyError ''vectorizer'')
           | Some v \<Rightarrow>
               (case p_dataframe d of
                  None \<Rightarrow> Inl (KeyError ''dataframe'')
                | Some df \<Rightarrow>
                    (case p_similarity_matrix d of
                       None \<Rightarrow> Inl (KeyError ''similarity_matrix'')
                     | Some s \<Rightarrow>
                         Inr \<lparr>vectorizer = v, new_df = df, similarity = s\<rparr>))))"

text \<open>The values the \<open>except\<close> branch assigns (lines 44 to 46).\<close>

definition not_loaded :: "('v, 'a) globals" where
  "not_loaded = \<lparr>vectorizer = None, new_df = [], similarity = None\<rparr>"

text \<open>
  The whole \<open>try\<close>/\<open>except Exception\<close> statement: the line it prints and the variables it
  leaves. The result type has room for an exception that escapes the statement.
\<close>

definition load :: "('v, 'a) artifact_file \<Rightarrow> exn + (message \<times> ('v, 'a) globals)" where
  "load f =
     (case load_body f of
        Inr g \<Rightarrow> Inr (Plain ''Model loaded successfully!'', g)
      | Inl e \<Rightarrow> Inr (Formatted ''Error loading model: '' e, not_loaded))"

subsection \<open>\<open>recommend\<close>\<close>

text \<open>
  \<open>new_df[new_df['title'] == movie].index\<close>: the index labels of the rows whose title is
  \<open>movie\<close>, in row order; \<open>.index[0]\<close> is its first element and raises on an empty index.
\<close>

definition matching_rows :: "string list \<Rightarrow> string \<Rightarrow> nat list" where
  "matching_rows df movie = filter (\<lambda>i. df ! i = movie) [0..<length df]"

definition movie_index :: "string list \<Rightarrow> string \<Rightarrow> exn + nat" where
  "movie_index df movie =
     (case matching_rows df movie of [] \<Rightarrow> Inl IndexError | i # _ \<Rightarrow> Inr i)"

text \<open>
  \<open>sorted(xs, reverse=True, key=k)\<close>: Python's sort is stable, also with \<open>reverse=True\<close>
  (the list is reversed, sorted in ascending key order, and reversed again), so elements
  with equal keys keep the order they have in \<open>xs\<close>.
\<close>

definition sorted_reverse :: "('b \<Rightarrow> 'k::linorder) \<Rightarrow> 'b list \<Rightarrow> 'b list" where
  "sorted_reverse key xs = rev (sort_key key (rev xs))"

text \<open>Line 67: the slice \<open>[1:6]\<close> of the sorted list of (column, score) pairs.\<close>

definition movies_list :: "'a::linorder list \<Rightarrow> (nat \<times> 'a) list" where
  "movies_list distance = drop 1 (take 6 (sorted_reverse snd (enumerate 0 distance)))"

definition iloc :: "string list \<Rightarrow> nat \<Rightarrow> exn + string" where
  "iloc df i = (if i < length df then Inr (df ! i) else Inl IndexError)"

text \<open>Line 68: the list comprehension, which stops at the first position out of bounds.\<close>

fun titles_of :: "string list \<Rightarrow> (nat \<times> 'a) list \<Rightarrow> exn + string list" where
  "titles_of df [] = Inr []"
| "titles_of df (i # rest) =
     (case iloc df (fst i) of
        Inl e \<Rightarrow> Inl e
      | Inr t \<Rightarrow> (case titles_of df rest of Inl e \<Rightarrow> Inl e | Inr ts \<Rightarrow> Inr (t # ts)))"

definition recommend :: "('v, 'a::linorder) globals \<Rightarrow> string \<Rightarrow> exn + string list" where
  "recommend g movie =
     (if movie \<notin> set (new_df g) then Inr []
      else
        (case movie_index (new_df g) movie of
           Inl e \<Rightarrow> Inl e
         | Inr i \<Rightarrow>
             (case similarity g of
                None \<Rightarrow> Inl TypeError
              | Some sim \<Rightarrow>
                  if i < length sim then titles_of (new_df g) (movies_list (sim ! i))
                  else Inl IndexError)))"

subsection \<open>The endpoints\<close>

definition quote :: string where
  "quote = [CHR 0x27]"

definition not_loaded_message :: message where
  "not_loaded_message = Plain ''Model not loaded properly. Please check the server.''"

definition not_found_message :: "string \<Rightarrow> message" where
  "not_found_message movie = Plain (''Movie '' @ quote @ movie @ quote @ '' not found in database.'')"

definition get_recommendation :: "('v, 'a::linorder) globals \<Rightarrow> string \<Rightarrow> response" where
  "get_recommendation g movie =
     (if new_df g = [] \<or> similarity g = None then Error not_loaded_message
      else
        (case recommend g movie of
           Inl e \<Rightarrow> Error (Formatted ''Recommendation failed: '' e)
         | Inr movies \<Rightarrow>
             if movies = [] then Error (not_found_message movie)
             else Recommended movies movie))"

definition health_check :: "('v, 'a) globals \<Rightarrow> health" where
  "health_check g =
     \<lparr>status = ''healthy'',
      message = ''API is operational'',
      model_status = (if new_df g \<noteq> [] \<and> similarity g \<noteq> None then ''loaded'' else ''not loaded''),
      movies_count = (if new_df g \<noteq> [] then length (new_df g) else 0)\<rparr>"

text \<open>The slice \<open>xs[:limit]\<close>; a negative \<open>limit\<close> counts from the end.\<close>

definition slice_to :: "int \<Rightarrow> 'b list \<Rightarrow> 'b list" where
  "slice_to limit xs =
     (if 0 \<le> limit then take (nat limit) xs else take (length xs - nat (- limit)) xs)"

definition get_available_movies :: "('v, 'a) globals \<Rightarrow> int \<Rightarrow> response" where
  "get_available_movies g limit =
     (if new_df g = [] then Error (Plain ''Movie database not loaded'')
      else Movies (slice_to limit (new_df g)) (length (new_df g)))"

subsection \<open>\<open>search_movies\<close>\<close>

text \<open>
  \<open>Series.str.contains(query, case=False, na=False)\<close> searches each title for the regular
  expression \<open>query\<close> with the flag \<open>re.IGNORECASE\<close> (\<open>regex=True\<close> is the default of
  pandas). The model covers the patterns that are a sequence of ordinary characters and
  of the class escapes for a decimal digit and for a character that is none; \<open>compile\<close>
  returns \<open>None\<close> on any other pattern (a metacharacter, another escape), which the model
  leaves open. With \<open>re.IGNORECASE\<close> an ordinary character of the pattern matches the
  characters of the text with the same lower-case form. Among the code points below 256
  the upper-case letters are \<open>A\<close> to \<open>Z\<close> (65 to 90) and the accented capitals 192 to 222
  without the multiplication sign 215; the lower-case form of each is 32 further on, and
  every other code point is its own.
\<close>

datatype atom = Lit char | Digit | Non_digit

definition backslash :: char where
  "backslash = CHR 0x5C"

definition special :: "char \<Rightarrow> bool" where
  "special c \<longleftrightarrow> c \<in> set ''.^$*+?{}[]|()'' \<or> c = backslash"

fun compile :: "string \<Rightarrow> atom list option" where
  "compile [] = Some []"
| "compile [c] = (if special c then None else Some [Lit c])"
| "compile (c # e # rest) =
     (if c = backslash then
        (if e = CHR ''d'' then map_option ((#) Digit) (compile rest)
         else if e = CHR ''D'' then map_option ((#) Non_digit) (compile rest)
         else None)
      else if special c then None
      else map_option ((#) (Lit c)) (compile (e # rest)))"

definition is_upper :: "char \<Rightarrow> bool" where
  "is_upper c \<longleftrightarrow>
     (65 \<le> (of_char c :: nat) \<and> (of_char c :: nat) \<le> 90)
     \<or> (192 \<le> (of_char c :: nat) \<and> (of_char c :: nat) \<le> 222 \<and> (of_char c :: nat) \<noteq> 215)"

definition lower :: "char \<Rightarrow> char" where
  "lower c = (if is_upper c then char_of ((of_char c :: nat) + 32) else c)"

definition is_digit :: "char \<Rightarrow> bool" where
  "is_digit c \<longleftrightarrow> 48 \<le> (of_char c :: nat) \<and> (of_char c :: nat) \<le> 57"

fun atom_matches :: "atom \<Rightarrow> char \<Rightarrow> bool" where
  "atom_matches (Lit c) t = (lower c = lower t)"
| "atom_matches Digit t = is_digit t"
| "atom_matches Non_digit t = (\<not> is_digit t)"

text \<open>The pattern matches at the start of the text.\<close>

fun match_here :: "atom list \<Rightarrow> string \<Rightarrow> bool" where
  "match_here [] s = True"
| "match_here (a # as) [] = False"
| "match_here (a # as) (t # ts) = (atom_matches a t \<and> match_here as ts)"

text \<open>\<open>re.search\<close>: the pattern matches at some position of the text.\<close>

fun re_search :: "atom list \<Rightarrow> string \<Rightarrow> bool" where
  "re_search p [] = match_here p []"
| "re_search p (t # ts) = (match_here p (t # ts) \<or> re_search p ts)"

definition search_movies :: "('v, 'a) globals \<Rightarrow> string \<Rightarrow> int \<Rightarrow> response option" where
  "search_movies g query limit =
     (if new_df g = [] then Some (Error (Plain ''Movie database not loaded''))
      else
        (case compile query of
           None \<Rightarrow> None
         | Some p \<Rightarrow>
             let matching_movies = slice_to limit (filter (re_search p) (new_df g))
             in Some (Found query matching_movies (length matching_movies))))"

subsection \<open>Example data and the ranking order\<close>

text \<open>
  The snapshot of the tie example: items \<open>A\<close>, \<open>B\<close>, \<open>C\<close>, where the row of \<open>A\<close> scores
  \<open>B\<close> and \<open>C\<close> equally.
\<close>

definition example_matrix :: "real list list" where
  "example_matrix = [ [1, 1 / 2, 1 / 2], [1 / 2, 1, 0], [1 / 2, 0, 1] ]"

definition example_snapshot :: "(unit, real) globals" where
  "example_snapshot =
     \<lparr>vectorizer = Some (), new_df = [''A'', ''B'', ''C''], similarity = Some example_matrix\<rparr>"

text \<open>
  \<open>ranks_before x y\<close>: the pair \<open>x\<close> has the higher score, or the same score and the smaller
  column.
\<close>

definition ranks_before :: "nat \<times> 'a::linorder \<Rightarrow> nat \<times> 'a \<Rightarrow> bool" where
  "ranks_before x y \<longleftrightarrow> snd y < snd x \<or> (snd x = snd y \<and> fst x < fst y)"

text \<open>
  The white-space characters of ASCII (tab, line feed, vertical tab, form feed, carriage
  return, space), and the queries without a metacharacter of regular expressions.
\<close>

definition whitespace :: "char \<Rightarrow> bool" where
  "whitespace c \<longleftrightarrow> (of_char c :: nat) \<in> {9, 10, 11, 12, 13, 32}"

definition plain :: "string \<Rightarrow> bool" where
  "plain q \<longleftrightarrow> list_all (\<lambda>c. \<not> special c) q"

section \<open>Properties of the ranking\<close>

lemma insort_key_ranked:
  fixes x :: "nat \<times> 'a::linorder"
  assumes "sorted_wrt (\<lambda>a b. ranks_before b a) ys" and "\<forall>y\<in>set ys. fst y < fst x"
  shows "sorted_wrt (\<lambda>a b. ranks_before b a) (insort_key snd x ys)"
  using assms
proof (induction ys)
  case Nil
  then show ?case by simp
next
  case (Cons y ys)
  show ?case
  proof (cases "snd x \<le> snd y")
    case True
    have "ranks_before z x" if "z \<in> set (y # ys)" for z
    proof -
      have "snd y \<le> snd z" using that Cons.prems(1) by (auto simp: ranks_before_def)
      moreover have "fst z < fst x" using that Cons.prems(2) by auto
      ultimately show ?thesis using True by (auto simp: ranks_before_def)
    qed
    then show ?thesis using True Cons.prems(1) by simp
  next
    case False
    have tail: "sorted_wrt (\<lambda>a b. ranks_before b a) (insort_key snd x ys)"
      using Cons by simp
    have "ranks_before z y" if "z \<in> set (insort_key snd x ys)" for z
      using that False Cons.prems(1) by (auto simp: set_insort_key ranks_before_def)
    then show ?thesis using False tail by simp
  qed
qed

lemma sort_key_ranked:
  fixes xs :: "(nat \<times> 'a::linorder) list"
  assumes "sorted_wrt (\<lambda>a b. fst b < fst a) xs"
  shows "sorted_wrt (\<lambda>a b. ranks_before b a) (sort_key snd xs)"
  using assms
proof (induction xs)
  case Nil
  then show ?case by simp
next
  case (Cons x xs)
  then show ?case by (simp add: insort_key_ranked)
qed

lemma enumerate_ascending: "sorted_wrt (\<lambda>a b. fst a < fst b) (enumerate 0 row)"
proof -
  have "sorted_wrt (<) (map fst (enumerate 0 row))" by simp
  then show ?thesis by (simp only: sorted_wrt_map)
qed

lemma sorted_reverse_ranked: "sorted_wrt ranks_before (sorted_reverse snd (enumerate 0 row))"
proof -
  have "sorted_wrt (\<lambda>a b. fst b < fst a) (rev (enumerate 0 row))"
    using enumerate_ascending [of row] by (simp add: sorted_wrt_rev)
  then have "sorted_wrt (\<lambda>a b. ranks_before b a) (sort_key snd (rev (enumerate 0 row)))"
    by (rule sort_key_ranked)
  then show ?thesis by (simp add: sorted_reverse_def sorted_wrt_rev)
qed

lemma set_sorted_reverse: "set (sorted_reverse key xs) = set xs"
  by (simp add: sorted_reverse_def)

lemma length_sorted_reverse: "length (sorted_reverse key xs) = length xs"
  by (simp add: sorted_reverse_def)

lemma distinct_sorted_reverse: "distinct (sorted_reverse key xs) = distinct xs"
  by (simp add: sorted_reverse_def)

lemma movies_list_ranked: "sorted_wrt ranks_before (movies_list row)"
  unfolding movies_list_def
  by (intro sorted_wrt_drop sorted_wrt_take sorted_reverse_ranked)

lemma length_movies_list: "length (movies_list row) = min 5 (length row - 1)"
  by (simp add: movies_list_def length_sorted_reverse)

lemma set_movies_list: "set (movies_list row) \<subseteq> set (enumerate 0 row)"
proof -
  have "set (movies_list row) \<subseteq> set (sorted_reverse snd (enumerate 0 row))"
    unfolding movies_list_def by (meson set_drop_subset set_take_subset subset_trans)
  then show ?thesis by (simp add: set_sorted_reverse)
qed

lemma in_movies_list: "(i, s) \<in> set (movies_list row) \<Longrightarrow> i < length row \<and> s = row ! i"
  using set_movies_list [of row] by (auto simp: in_set_enumerate_eq)

lemma titles_of_in_bounds:
  "\<forall>p\<in>set ps. fst p < length df \<Longrightarrow> titles_of df ps = Inr (map (\<lambda>p. df ! fst p) ps)"
  by (induction ps) (simp_all add: iloc_def)

lemma titles_of_Inr:
  "titles_of df ps = Inr names \<Longrightarrow> names = map (\<lambda>p. df ! fst p) ps \<and> (\<forall>p\<in>set ps. fst p < length df)"
proof (induction ps arbitrary: names)
  case Nil
  then show ?case by simp
next
  case (Cons p ps)
  from Cons.prems obtain t ts where
    t: "iloc df (fst p) = Inr t" and ts: "titles_of df ps = Inr ts" and n: "names = t # ts"
    by (auto split: sum.splits)
  from t have "fst p < length df \<and> t = df ! fst p" by (simp add: iloc_def split: if_splits)
  with Cons.IH [OF ts] n show ?case by simp
qed

lemma first_match:
  "filter P [0..<n] = i # rest \<Longrightarrow> P i \<and> i < n \<and> (\<forall>j<i. \<not> P j)"
proof (induction n arbitrary: rest)
  case 0
  then show ?case by simp
next
  case (Suc n)
  show ?case
  proof (cases "filter P [0..<n]")
    case Nil
    then have none: "\<forall>j<n. \<not> P j" by (auto simp: filter_empty_conv)
    from Suc.prems Nil have "P n \<and> i = n" by (auto split: if_splits)
    with none show ?thesis by simp
  next
    case (Cons k ks)
    with Suc.prems have "k = i" by (simp split: if_splits)
    with Cons have "filter P [0..<n] = i # ks" by simp
    then have "P i \<and> i < n \<and> (\<forall>j<i. \<not> P j)" by (rule Suc.IH)
    then show ?thesis by auto
  qed
qed

lemma movie_index_Inr:
  assumes "movie_index df movie = Inr i"
  shows "i < length df \<and> df ! i = movie \<and> (\<forall>j<i. df ! j \<noteq> movie)"
proof (cases "matching_rows df movie")
  case Nil
  with assms show ?thesis by (simp add: movie_index_def)
next
  case (Cons k rest)
  with assms have "k = i" by (simp add: movie_index_def)
  with Cons have "filter (\<lambda>k. df ! k = movie) [0..<length df] = i # rest"
    by (simp add: matching_rows_def)
  from first_match [OF this] show ?thesis by blast
qed

lemma movie_index_resolves:
  "movie \<in> set df \<Longrightarrow> \<exists>i. movie_index df movie = Inr i"
proof -
  assume "movie \<in> set df"
  then obtain k where "k < length df" "df ! k = movie" by (auto simp: in_set_conv_nth)
  then have "k \<in> set (matching_rows df movie)" by (simp add: matching_rows_def)
  then have "matching_rows df movie \<noteq> []" by auto
  then show ?thesis by (simp add: movie_index_def split: list.splits)
qed

lemma recommend_resolved:
  assumes "movie_index (new_df g) movie = Inr i" "similarity g = Some sim" "i < length sim"
  shows "recommend g movie = titles_of (new_df g) (movies_list (sim ! i))"
proof -
  have "movie \<in> set (new_df g)" using movie_index_Inr [OF assms(1)] by (metis nth_mem)
  then show ?thesis using assms by (simp add: recommend_def)
qed

lemma movies_list_nth_ranked:
  assumes "p < q" "q < length (movies_list row)"
  shows "ranks_before (movies_list row ! p) (movies_list row ! q)"
  using movies_list_ranked [of row] assms by (simp add: sorted_wrt_iff_nth_less)

lemma movies_list_nth:
  assumes "p < length (movies_list row)"
  shows "fst (movies_list row ! p) < length row \<and> snd (movies_list row ! p) = row ! fst (movies_list row ! p)"
proof -
  have "(fst (movies_list row ! p), snd (movies_list row ! p)) \<in> set (movies_list row)"
    using assms by simp
  then show ?thesis by (rule in_movies_list)
qed

lemma recommend_Inr:
  fixes g :: "('v, 'a::linorder) globals"
  assumes "movie \<in> set (new_df g)" and "recommend g movie = Inr names"
  shows "\<exists>i sim. movie_index (new_df g) movie = Inr i \<and> similarity g = Some sim \<and> i < length sim
           \<and> titles_of (new_df g) (movies_list (sim ! i)) = Inr names"
proof -
  obtain i where i: "movie_index (new_df g) movie = Inr i"
    using assms(1) movie_index_resolves by blast
  show ?thesis
  proof (cases "similarity g")
    case None
    with assms i show ?thesis by (simp add: recommend_def)
  next
    case (Some sim)
    show ?thesis
    proof (cases "i < length sim")
      case True
      with assms i Some show ?thesis by (simp add: recommend_def)
    next
      case False
      with assms i Some show ?thesis by (simp add: recommend_def)
    qed
  qed
qed

lemma dominant_self_ranked_first:
  fixes row :: "'a::linorder list"
  assumes i: "i < length row"
    and dom: "\<forall>j<length row. (j < i \<longrightarrow> row ! j < row ! i) \<and> (i < j \<longrightarrow> row ! j \<le> row ! i)"
  shows "\<exists>rest. sorted_reverse snd (enumerate 0 row) = (i, row ! i) # rest \<and> i \<notin> fst ` set rest"
proof -
  let ?L = "sorted_reverse snd (enumerate 0 row)"
  have mem: "(i, row ! i) \<in> set ?L"
    using i by (simp add: set_sorted_reverse in_set_enumerate_eq)
  then obtain x rest where L: "?L = x # rest" by (cases ?L) auto
  have x: "fst x < length row \<and> snd x = row ! fst x"
  proof -
    have "x \<in> set (enumerate 0 row)" using L set_sorted_reverse [of snd "enumerate 0 row"] by (metis list.set_intros(1))
    then have "(fst x, snd x) \<in> set (enumerate 0 row)" by simp
    then show ?thesis by (simp add: in_set_enumerate_eq)
  qed
  have ranked: "\<forall>y\<in>set rest. ranks_before x y"
    using sorted_reverse_ranked [of row] L by simp
  have notin: "(i, row ! i) \<notin> set rest"
  proof
    assume "(i, row ! i) \<in> set rest"
    with ranked have "ranks_before x (i, row ! i)" by blast
    then have r: "row ! i < row ! fst x \<or> (row ! fst x = row ! i \<and> fst x < i)"
      using x by (simp add: ranks_before_def)
    show False
    proof (cases "fst x < i")
      case True
      with dom x have "row ! fst x < row ! i" by blast
      with r show False by auto
    next
      case False
      with r have "row ! i < row ! fst x" by blast
      moreover from this have "fst x \<noteq> i" by auto
      with False have "i < fst x" by simp
      with dom x have "row ! fst x \<le> row ! i" by blast
      ultimately show False by simp
    qed
  qed
  with mem L have hd: "x = (i, row ! i)" by auto
  have "i \<notin> fst ` set rest"
  proof
    assume "i \<in> fst ` set rest"
    then obtain s where s: "(i, s) \<in> set rest" by force
    with L have "(i, s) \<in> set ?L" by simp
    then have "s = row ! i" by (simp add: set_sorted_reverse in_set_enumerate_eq)
    with s notin show False by simp
  qed
  with L hd show ?thesis by blast
qed

lemma dominant_self_not_selected:
  fixes row :: "'a::linorder list"
  assumes "i < length row"
    and "\<forall>j<length row. (j < i \<longrightarrow> row ! j < row ! i) \<and> (i < j \<longrightarrow> row ! j \<le> row ! i)"
  shows "i \<notin> fst ` set (movies_list row)"
proof -
  obtain rest where L: "sorted_reverse snd (enumerate 0 row) = (i, row ! i) # rest"
    and ni: "i \<notin> fst ` set rest"
    using dominant_self_ranked_first [OF assms] by blast
  have "movies_list row = take 5 rest" by (simp add: movies_list_def L)
  then have "set (movies_list row) \<subseteq> set rest" by (simp add: set_take_subset)
  with ni show ?thesis by blast
qed

section \<open>Name resolution\<close>

text \<open>
  Claim C7. When several records carry the same name, the exact lookup of \<open>recommend\<close>
  yields the row of the first of them in record order: the resolved row holds the name and
  no earlier row does; a row that repeats the name of an earlier row is the result of no
  lookup. With two records named \<open>X\<close> at rows 3 and 7 the lookup of \<open>X\<close> yields row 3.
\<close>

theorem movie_index_first_occurrence:
  "(movie \<in> set df \<longrightarrow>
      (\<exists>i. movie_index df movie = Inr i \<and> i < length df \<and> df ! i = movie \<and> (\<forall>j<i. df ! j \<noteq> movie)))
   \<and> (\<forall>i j. i < j \<and> j < length df \<and> df ! i = df ! j \<longrightarrow> (\<forall>name. movie_index df name \<noteq> Inr j))
   \<and> movie_index [''m0'', ''m1'', ''m2'', ''X'', ''m4'', ''m5'', ''m6'', ''X''] ''X'' = Inr 3"
proof (intro conjI impI allI)
  assume "movie \<in> set df"
  then obtain i where "movie_index df movie = Inr i" using movie_index_resolves by blast
  then show "\<exists>i. movie_index df movie = Inr i \<and> i < length df \<and> df ! i = movie \<and> (\<forall>j<i. df ! j \<noteq> movie)"
    using movie_index_Inr by blast
next
  fix i j name
  assume h: "i < j \<and> j < length df \<and> df ! i = df ! j"
  show "movie_index df name \<noteq> Inr j"
  proof
    assume "movie_index df name = Inr j"
    then have "df ! j = name" "\<forall>k<j. df ! k \<noteq> name" using movie_index_Inr by blast+
    with h show False by auto
  qed
next
  show "movie_index [''m0'', ''m1'', ''m2'', ''X'', ''m4'', ''m5'', ''m6'', ''X''] ''X'' = Inr 3"
    by code_simp
qed

theorem movie_index_first_occurrence_witness:
  "''X'' \<in> set [''m0'', ''m1'', ''m2'', ''X'', ''m4'', ''m5'', ''m6'', ''X'']
   \<and> movie_index [''m0'', ''m1'', ''m2'', ''X'', ''m4'', ''m5'', ''m6'', ''X''] ''X'' = Inr 3
   \<and> (\<forall>name. movie_index [''m0'', ''m1'', ''m2'', ''X'', ''m4'', ''m5'', ''m6'', ''X''] name \<noteq> Inr 7)"
proof -
  let ?df = "[''m0'', ''m1'', ''m2'', ''X'', ''m4'', ''m5'', ''m6'', ''X'']"
  note t = movie_index_first_occurrence [of "''X''" ?df]
  have m: "''X'' \<in> set ?df" by simp
  from t have ex: "movie_index ?df ''X'' = Inr 3" by (elim conjE)
  have dup: "(3::nat) < 7 \<and> 7 < length ?df \<and> ?df ! 3 = ?df ! 7" by simp
  from t have "\<forall>i j. i < j \<and> j < length ?df \<and> ?df ! i = ?df ! j \<longrightarrow> (\<forall>name. movie_index ?df name \<noteq> Inr j)"
    by (elim conjE)
  then have "(3::nat) < 7 \<and> 7 < length ?df \<and> ?df ! 3 = ?df ! 7 \<longrightarrow> (\<forall>name. movie_index ?df name \<noteq> Inr 7)"
    by (elim allE)
  with dup have b: "\<forall>name. movie_index ?df name \<noteq> Inr 7" by (rule rev_mp)
  show ?thesis by (intro conjI m ex b)
qed

section \<open>The list \<open>recommend\<close> returns\<close>

text \<open>
  Claim C4. For a snapshot of \<open>N\<close> records whose similarity matrix has \<open>N\<close> rows of \<open>N\<close>
  scores, and a name that some record carries, \<open>recommend\<close> returns a list (it raises
  nothing) of exactly \<open>min 5 (N - 1)\<close> names.
\<close>

theorem recommend_length:
  fixes g :: "('v, 'a::linorder) globals"
  assumes "similarity g = Some sim" "length sim = length (new_df g)"
    "\<forall>row\<in>set sim. length row = length (new_df g)" "movie \<in> set (new_df g)"
  shows "\<exists>names. recommend g movie = Inr names \<and> length names = min 5 (length (new_df g) - 1)"
proof -
  obtain i where i: "movie_index (new_df g) movie = Inr i"
    using assms(4) movie_index_resolves by blast
  then have "i < length sim" using movie_index_Inr assms(2) by metis
  then have len: "length (sim ! i) = length (new_df g)" using assms(3) by simp
  have rec: "recommend g movie = titles_of (new_df g) (movies_list (sim ! i))"
    using i assms(1) \<open>i < length sim\<close> by (rule recommend_resolved)
  have "\<forall>p\<in>set (movies_list (sim ! i)). fst p < length (new_df g)"
  proof
    fix p assume "p \<in> set (movies_list (sim ! i))"
    then have "(fst p, snd p) \<in> set (movies_list (sim ! i))" by simp
    then show "fst p < length (new_df g)"
      using in_movies_list [of "fst p" "snd p" "sim ! i"] len by simp
  qed
  then have "titles_of (new_df g) (movies_list (sim ! i)) =
      Inr (map (\<lambda>p. new_df g ! fst p) (movies_list (sim ! i)))"
    by (rule titles_of_in_bounds)
  with rec len show ?thesis by (simp add: length_movies_list)
qed

theorem recommend_length_witness:
  "similarity example_snapshot = Some example_matrix
   \<and> length example_matrix = length (new_df example_snapshot)
   \<and> list_all (\<lambda>row. length row = length (new_df example_snapshot)) example_matrix
   \<and> ''A'' \<in> set (new_df example_snapshot)
   \<and> (\<exists>names. recommend example_snapshot ''A'' = Inr names
         \<and> length names = min 5 (length (new_df example_snapshot) - 1))"
proof -
  have h1: "similarity example_snapshot = Some example_matrix"
    by (simp add: example_snapshot_def)
  have h2: "length example_matrix = length (new_df example_snapshot)"
    by (simp add: example_snapshot_def example_matrix_def)
  have h3: "\<forall>row\<in>set example_matrix. length row = length (new_df example_snapshot)"
    by (simp add: example_snapshot_def example_matrix_def)
  have h4: "''A'' \<in> set (new_df example_snapshot)"
    by (simp add: example_snapshot_def)
  have h3': "list_all (\<lambda>row. length row = length (new_df example_snapshot)) example_matrix"
    using h3 by (simp only: list_all_iff)
  show ?thesis by (intro conjI h1 h2 h3' h4 recommend_length [OF h1 h2 h3 h4])
qed

text \<open>
  Claim C3. When \<open>recommend\<close> returns the names for a resolved query, the names are those
  of the selected columns, in the order of selection; along that order the score in the
  query's row never increases, and of two selected columns with equal scores the smaller
  column comes first. For the items \<open>A\<close>, \<open>B\<close>, \<open>C\<close> and the row \<open>1.0, 0.5, 0.5\<close> of \<open>A\<close>
  the result for \<open>A\<close> is \<open>B\<close>, \<open>C\<close>.
\<close>

theorem recommend_order:
  fixes g :: "('v, 'a::linorder) globals"
  assumes "movie_index (new_df g) movie = Inr i" and "similarity g = Some sim"
    and "recommend g movie = Inr names"
  shows "(let cols = map fst (movies_list (sim ! i)) in
            names = map (\<lambda>c. new_df g ! c) cols
          \<and> (\<forall>c\<in>set cols. c < length (sim ! i))
          \<and> (\<forall>p q. p < q \<and> q < length cols \<longrightarrow>
                 sim ! i ! (cols ! q) < sim ! i ! (cols ! p)
                 \<or> (sim ! i ! (cols ! p) = sim ! i ! (cols ! q) \<and> cols ! p < cols ! q)))
         \<and> recommend \<lparr>vectorizer = v, new_df = [''A'', ''B'', ''C''],
               similarity = Some [ [1, 1 / 2, 1 / 2], r1, r2 :: real list]\<rparr> ''A'' = Inr [''B'', ''C'']"
proof
  have mem: "movie \<in> set (new_df g)" using movie_index_Inr [OF assms(1)] by (metis nth_mem)
  obtain i' sim' where "movie_index (new_df g) movie = Inr i'" and "similarity g = Some sim'"
    and "i' < length sim'" and "titles_of (new_df g) (movies_list (sim' ! i')) = Inr names"
    using recommend_Inr [OF mem assms(3)] by blast
  with assms(1,2) have il: "i < length sim"
    and t: "titles_of (new_df g) (movies_list (sim ! i)) = Inr names" by simp_all
  let ?ml = "movies_list (sim ! i)"
  let ?cols = "map fst ?ml"
  have names: "names = map (\<lambda>c. new_df g ! c) ?cols"
    using titles_of_Inr [OF t] by (simp add: comp_def)
  have bound: "\<forall>c\<in>set ?cols. c < length (sim ! i)"
    using in_movies_list [of _ _ "sim ! i"] by auto
  have order: "sim ! i ! (?cols ! q) < sim ! i ! (?cols ! p)
       \<or> (sim ! i ! (?cols ! p) = sim ! i ! (?cols ! q) \<and> ?cols ! p < ?cols ! q)"
    if "p < q \<and> q < length ?cols" for p q
  proof -
    from that have pq: "p < q" "q < length ?ml" "p < length ?ml" by simp_all
    have "ranks_before (?ml ! p) (?ml ! q)" using pq(1,2) by (rule movies_list_nth_ranked)
    moreover have "snd (?ml ! p) = sim ! i ! fst (?ml ! p)" using movies_list_nth [OF pq(3)] by simp
    moreover have "snd (?ml ! q) = sim ! i ! fst (?ml ! q)" using movies_list_nth [OF pq(2)] by simp
    ultimately show ?thesis using pq by (simp add: ranks_before_def)
  qed
  show "let cols = map fst (movies_list (sim ! i)) in
            names = map (\<lambda>c. new_df g ! c) cols
          \<and> (\<forall>c\<in>set cols. c < length (sim ! i))
          \<and> (\<forall>p q. p < q \<and> q < length cols \<longrightarrow>
                 sim ! i ! (cols ! q) < sim ! i ! (cols ! p)
                 \<or> (sim ! i ! (cols ! p) = sim ! i ! (cols ! q) \<and> cols ! p < cols ! q))"
    unfolding Let_def using names bound order by blast
next
  show "recommend \<lparr>vectorizer = v, new_df = [''A'', ''B'', ''C''],
               similarity = Some [ [1, 1 / 2, 1 / 2], r1, r2 :: real list]\<rparr> ''A'' = Inr [''B'', ''C'']"
    by (simp add: recommend_def movie_index_def matching_rows_def movies_list_def
        sorted_reverse_def enumerate_eq_zip iloc_def upt_rec)
qed

theorem recommend_order_witness:
  "movie_index (new_df example_snapshot) ''A'' = Inr 0
   \<and> similarity example_snapshot = Some example_matrix
   \<and> recommend example_snapshot ''A'' = Inr [''B'', ''C'']
   \<and> (let cols = map fst (movies_list (example_matrix ! 0)) in
            [''B'', ''C''] = map (\<lambda>c. new_df example_snapshot ! c) cols
          \<and> (\<forall>c\<in>set cols. c < length (example_matrix ! 0))
          \<and> (\<forall>p q. p < q \<and> q < length cols \<longrightarrow>
                 example_matrix ! 0 ! (cols ! q) < example_matrix ! 0 ! (cols ! p)
                 \<or> (example_matrix ! 0 ! (cols ! p) = example_matrix ! 0 ! (cols ! q) \<and> cols ! p < cols ! q)))"
proof -
  have h1: "movie_index (new_df example_snapshot) ''A'' = Inr 0"
    by (simp add: example_snapshot_def movie_index_def matching_rows_def upt_rec)
  have h2: "similarity example_snapshot = Some example_matrix"
    by (simp add: example_snapshot_def)
  have h3: "recommend example_snapshot ''A'' = Inr [''B'', ''C'']"
    by (simp add: example_snapshot_def example_matrix_def recommend_def movie_index_def
        matching_rows_def movies_list_def sorted_reverse_def enumerate_eq_zip iloc_def upt_rec)
  note r = recommend_order [OF h1 h2 h3]
  show ?thesis by (intro conjI h1 h2 h3 conjunct1 [OF r])
qed

text \<open>
  Claim C1, as amended. \<open>recommend\<close> removes no entry of the query's row before ranking: it
  ranks the whole row, the query's own column included, and drops the entry ranked first.
  For a snapshot of \<open>N\<close> records with an \<open>N\<close> by \<open>N\<close> matrix and a name that resolves to row
  \<open>i\<close>, if the diagonal score of row \<open>i\<close> is greater than every score of the row at a smaller
  column and at least every score at a larger column, then \<open>recommend\<close> returns a list, column
  \<open>i\<close> is not among the selected columns, and, when no other record carries the query's
  name, that name is not in the returned list.
\<close>

theorem recommend_excludes_dominant_self:
  fixes g :: "('v, 'a::linorder) globals"
  assumes idx: "movie_index (new_df g) movie = Inr i"
    and sim: "similarity g = Some sim"
    and rows: "length sim = length (new_df g)"
    and cols: "\<forall>row\<in>set sim. length row = length (new_df g)"
    and dom: "\<forall>j<length (new_df g).
                (j < i \<longrightarrow> sim ! i ! j < sim ! i ! i) \<and> (i < j \<longrightarrow> sim ! i ! j \<le> sim ! i ! i)"
  shows "\<exists>names. recommend g movie = Inr names
           \<and> i \<notin> fst ` set (movies_list (sim ! i))
           \<and> ((\<forall>j<length (new_df g). j \<noteq> i \<longrightarrow> new_df g ! j \<noteq> movie) \<longrightarrow> movie \<notin> set names)"
proof -
  let ?df = "new_df g"
  let ?ml = "movies_list (sim ! i)"
  have i: "i < length ?df" using movie_index_Inr [OF idx] by simp
  then have il: "i < length sim" using rows by simp
  then have len: "length (sim ! i) = length ?df" using cols by simp
  have rec: "recommend g movie = titles_of ?df ?ml" using idx sim il by (rule recommend_resolved)
  have inb: "\<forall>p\<in>set ?ml. fst p < length ?df"
  proof
    fix p assume "p \<in> set ?ml"
    then have "(fst p, snd p) \<in> set ?ml" by simp
    then show "fst p < length ?df" using in_movies_list [of "fst p" "snd p" "sim ! i"] len by simp
  qed
  then have t: "titles_of ?df ?ml = Inr (map (\<lambda>p. ?df ! fst p) ?ml)" by (rule titles_of_in_bounds)
  have self: "i \<notin> fst ` set ?ml"
    using i dom by (intro dominant_self_not_selected) (simp_all add: len)
  have "movie \<notin> set (map (\<lambda>p. ?df ! fst p) ?ml)"
    if other: "\<forall>j<length ?df. j \<noteq> i \<longrightarrow> ?df ! j \<noteq> movie"
  proof
    assume "movie \<in> set (map (\<lambda>p. ?df ! fst p) ?ml)"
    then obtain p where p: "p \<in> set ?ml" "?df ! fst p = movie" by auto
    with inb have "fst p < length ?df" by blast
    moreover from p(1) self have "fst p \<noteq> i" by auto
    ultimately show False using other p(2) by blast
  qed
  with rec t self show ?thesis by simp
qed

theorem recommend_excludes_dominant_self_witness:
  "movie_index (new_df example_snapshot) ''A'' = Inr 0
   \<and> similarity example_snapshot = Some example_matrix
   \<and> length example_matrix = length (new_df example_snapshot)
   \<and> (\<exists>names. recommend example_snapshot ''A'' = Inr names
         \<and> 0 \<notin> fst ` set (movies_list (example_matrix ! 0))
         \<and> ''A'' \<notin> set names)"
proof -
  let ?g = "example_snapshot"
  have df: "new_df ?g = [''A'', ''B'', ''C'']" by (simp add: example_snapshot_def)
  have h1: "movie_index (new_df ?g) ''A'' = Inr 0"
    by (simp add: df movie_index_def matching_rows_def upt_rec)
  have h2: "similarity ?g = Some example_matrix" by (simp add: example_snapshot_def)
  have h3: "length example_matrix = length (new_df ?g)" by (simp add: df example_matrix_def)
  have h4: "\<forall>row\<in>set example_matrix. length row = length (new_df ?g)"
    by (simp add: df example_matrix_def)
  have h5: "\<forall>j<length (new_df ?g).
      (j < 0 \<longrightarrow> example_matrix ! 0 ! j < example_matrix ! 0 ! 0)
      \<and> (0 < j \<longrightarrow> example_matrix ! 0 ! j \<le> example_matrix ! 0 ! 0)"
    by (simp add: df example_matrix_def All_less_Suc)
  have other: "\<forall>j<length (new_df ?g). j \<noteq> 0 \<longrightarrow> new_df ?g ! j \<noteq> ''A''"
    by (simp add: df All_less_Suc)
  from recommend_excludes_dominant_self [OF h1 h2 h3 h4 h5]
  obtain names where n: "recommend ?g ''A'' = Inr names"
    "0 \<notin> fst ` set (movies_list (example_matrix ! 0))"
    "(\<forall>j<length (new_df ?g). j \<noteq> 0 \<longrightarrow> new_df ?g ! j \<noteq> ''A'') \<longrightarrow> ''A'' \<notin> set names"
    by (elim exE conjE)
  from n(3) other have "''A'' \<notin> set names" by (rule mp)
  with n(1,2) have "\<exists>names. recommend ?g ''A'' = Inr names
         \<and> 0 \<notin> fst ` set (movies_list (example_matrix ! 0)) \<and> ''A'' \<notin> set names"
    by (intro exI conjI)
  then show ?thesis by (intro conjI h1 h2 h3)
qed

text \<open>
  The claim as stated fails. With the items \<open>A\<close>, \<open>B\<close>, the row \<open>0.1, 0.9\<close> of \<open>A\<close> (a
  diagonal entry that is not maximal) and the row \<open>1.0, 1.0\<close> of \<open>B\<close> (a tie at the maximal
  score), each query resolves to its row and gets its own name back: the entry dropped is
  the one ranked first, which is the other item's.
\<close>

theorem recommend_returns_query_itself:
  "movie_index [''A'', ''B''] ''A'' = Inr 0
   \<and> recommend \<lparr>vectorizer = Some (), new_df = [''A'', ''B''],
        similarity = Some [ [1 / 10, 9 / 10], [1, 1 :: real] ]\<rparr> ''A'' = Inr [''A'']
   \<and> movie_index [''A'', ''B''] ''B'' = Inr 1
   \<and> recommend \<lparr>vectorizer = Some (), new_df = [''A'', ''B''],
        similarity = Some [ [1 / 10, 9 / 10], [1, 1 :: real] ]\<rparr> ''B'' = Inr [''B'']
   \<and> map fst (movies_list [1 / 10, 9 / 10 :: real]) = [0]
   \<and> map fst (movies_list [1, 1 :: real]) = [1]"
  by (simp add: recommend_def movie_index_def matching_rows_def movies_list_def
        sorted_reverse_def enumerate_eq_zip iloc_def upt_rec)

text \<open>
  Claim C10. \<open>recommend\<close> returns the empty list both for a name no record carries and for
  the name of the only record of a one-record snapshot, and \<open>get_recommendation\<close> answers
  an empty list with the "not found" error: the only record of a loaded one-record
  snapshot is reported as not found in the database.
\<close>

theorem single_record_reported_not_found:
  fixes g :: "('v, 'a::linorder) globals" and s :: "'a"
  shows "recommend \<lparr>vectorizer = v, new_df = [t], similarity = Some [ [s] ]\<rparr> t = Inr []
   \<and> get_recommendation \<lparr>vectorizer = v, new_df = [t], similarity = Some [ [s] ]\<rparr> t
       = Error (not_found_message t)
   \<and> (movie \<notin> set (new_df g) \<longrightarrow> recommend g movie = Inr [])
   \<and> (movie \<notin> set (new_df g) \<and> new_df g \<noteq> [] \<and> similarity g \<noteq> None \<longrightarrow>
         get_recommendation g movie = Error (not_found_message movie))"
  by (simp add: recommend_def get_recommendation_def movie_index_def matching_rows_def
        movies_list_def sorted_reverse_def enumerate_eq_zip iloc_def)

theorem single_record_reported_not_found_witness:
  "''B'' \<notin> set [''A'']
   \<and> recommend \<lparr>vectorizer = Some (), new_df = [''A''], similarity = Some [ [1 :: real] ]\<rparr> ''B'' = Inr []
   \<and> recommend \<lparr>vectorizer = Some (), new_df = [''A''], similarity = Some [ [1 :: real] ]\<rparr> ''A'' = Inr []
   \<and> get_recommendation \<lparr>vectorizer = Some (), new_df = [''A''], similarity = Some [ [1 :: real] ]\<rparr> ''B''
       = Error (not_found_message ''B'')
   \<and> get_recommendation \<lparr>vectorizer = Some (), new_df = [''A''], similarity = Some [ [1 :: real] ]\<rparr> ''A''
       = Error (not_found_message ''A'')"
  using single_record_reported_not_found [where v = "Some ()" and t = "''A''" and s = "1 :: real"
      and movie = "''B''"
      and g = "\<lparr>vectorizer = Some (), new_df = [''A''], similarity = Some [ [1 :: real] ]\<rparr>"]
  by simp

section \<open>The load and the health report\<close>

text \<open>
  Claim C8. For everything that can be found at the model path (no file, a file that does
  not decode, a decoded dictionary with or without each of its three keys), the load
  statement completes without an exception escaping it, and in exactly one of two ways:
  the suite of \<open>try\<close> ran to its end and the variables hold the artifact, or an exception
  was caught and the variables hold the values of the \<open>except\<close> branch. A missing file, an
  undecodable file and a missing key each end in the second way.
\<close>

theorem load_outcome:
  "(\<forall>e. load f \<noteq> Inl e)
   \<and> ((\<exists>g. load_body f = Inr g \<and> load f = Inr (Plain ''Model loaded successfully!'', g))
        \<noteq> (\<exists>e. load_body f = Inl e \<and> load f = Inr (Formatted ''Error loading model: '' e, not_loaded)))
   \<and> load No_such_file = Inr (Formatted ''Error loading model: '' FileNotFoundError, not_loaded)
   \<and> load Not_decodable = Inr (Formatted ''Error loading model: '' DecodeError, not_loaded)
   \<and> load (Decodable \<lparr>p_vectorizer = v, p_dataframe = None, p_similarity_matrix = s\<rparr>)
        = Inr (Formatted ''Error loading model: ''
                 (case v of None \<Rightarrow> KeyError ''vectorizer'' | Some _ \<Rightarrow> KeyError ''dataframe''), not_loaded)"
proof (intro conjI)
  show "\<forall>e. load f \<noteq> Inl e" by (cases "load_body f") (simp_all add: load_def)
  show "(\<exists>g. load_body f = Inr g \<and> load f = Inr (Plain ''Model loaded successfully!'', g))
        \<noteq> (\<exists>e. load_body f = Inl e \<and> load f = Inr (Formatted ''Error loading model: '' e, not_loaded))"
    by (cases "load_body f") (simp_all add: load_def)
  show "load No_such_file = Inr (Formatted ''Error loading model: '' FileNotFoundError, not_loaded)"
    by (simp add: load_def load_body_def)
  show "load Not_decodable = Inr (Formatted ''Error loading model: '' DecodeError, not_loaded)"
    by (simp add: load_def load_body_def)
  show "load (Decodable \<lparr>p_vectorizer = v, p_dataframe = None, p_similarity_matrix = s\<rparr>)
        = Inr (Formatted ''Error loading model: ''
                 (case v of None \<Rightarrow> KeyError ''vectorizer'' | Some _ \<Rightarrow> KeyError ''dataframe''), not_loaded)"
    by (cases v) (simp_all add: load_def load_body_def)
qed

text \<open>
  Claim C6. After a load that failed, \<open>get_recommendation\<close> answers every name with the
  error "Model not loaded properly", which differs from the "not found" error of every
  name; the answer does not depend on the name asked for.
\<close>

theorem recommend_unavailable_after_failed_load:
  fixes f :: "('v, 'a::linorder) artifact_file"
  assumes "load_body f = Inl e"
  shows "\<exists>out g. load f = Inr (out, g)
           \<and> get_recommendation g movie = Error not_loaded_message
           \<and> Error not_loaded_message \<noteq> Error (not_found_message name)"
proof -
  have "load f = Inr (Formatted ''Error loading model: '' e, not_loaded)"
    using assms by (simp add: load_def)
  moreover have "get_recommendation (not_loaded :: ('v, 'a) globals) movie = Error not_loaded_message"
    by (simp add: get_recommendation_def not_loaded_def)
  moreover have "Error not_loaded_message \<noteq> Error (not_found_message name)"
    by (simp add: not_loaded_message_def not_found_message_def)
  ultimately show ?thesis by blast
qed

theorem recommend_unavailable_after_failed_load_witness:
  "load_body (No_such_file :: (unit, real) artifact_file) = Inl FileNotFoundError
   \<and> (\<exists>out g. load (No_such_file :: (unit, real) artifact_file) = Inr (out, g)
           \<and> get_recommendation g ''Heat'' = Error not_loaded_message
           \<and> Error not_loaded_message \<noteq> Error (not_found_message ''Heat''))"
proof -
  have h: "load_body (No_such_file :: (unit, real) artifact_file) = Inl FileNotFoundError"
    by (simp add: load_body_def)
  show ?thesis by (intro conjI h recommend_unavailable_after_failed_load [OF h])
qed

text \<open>
  Claim C5, as amended. After the load, \<open>health_check\<close> reports the model as loaded exactly
  when the load succeeded, the loaded table has at least one record and the loaded matrix
  is not \<open>None\<close>; otherwise it reports it as not loaded. The count it reports is the number
  of records of the table in every case: it is 0 after every failed load, and whenever the
  model is reported as not loaded although the matrix is not \<open>None\<close>.
\<close>

theorem health_check_after_load:
  assumes "load f = Inr (out, g)"
  shows "(model_status (health_check g) = ''loaded''
            \<longleftrightarrow> (\<exists>g'. load_body f = Inr g' \<and> new_df g' \<noteq> [] \<and> similarity g' \<noteq> None))
       \<and> (model_status (health_check g) \<noteq> ''loaded'' \<longrightarrow>
             model_status (health_check g) = ''not loaded'')
       \<and> ((\<exists>e. load_body f = Inl e) \<longrightarrow>
             model_status (health_check g) = ''not loaded'' \<and> movies_count (health_check g) = 0)
       \<and> (model_status (health_check g) \<noteq> ''loaded'' \<and> similarity g \<noteq> None \<longrightarrow>
             movies_count (health_check g) = 0)
       \<and> movies_count (health_check g) = length (new_df g)"
proof (cases "load_body f")
  case (Inl e)
  with assms have "g = not_loaded" by (simp add: load_def)
  with Inl show ?thesis by (simp add: health_check_def not_loaded_def)
next
  case (Inr g')
  with assms have g: "g = g'" by (simp add: load_def)
  with Inr show ?thesis by (simp add: health_check_def)
qed

theorem health_check_after_load_witness:
  "load (Decodable \<lparr>p_vectorizer = Some (Some ()), p_dataframe = Some [''A''],
          p_similarity_matrix = Some (Some [ [1 :: real] ])\<rparr>)
     = Inr (Plain ''Model loaded successfully!'',
            \<lparr>vectorizer = Some (), new_df = [''A''], similarity = Some [ [1 :: real] ]\<rparr>)
   \<and> model_status (health_check \<lparr>vectorizer = Some (), new_df = [''A''], similarity = Some [ [1 :: real] ]\<rparr>)
       = ''loaded''
   \<and> movies_count (health_check \<lparr>vectorizer = Some (), new_df = [''A''], similarity = Some [ [1 :: real] ]\<rparr>)
       = length [''A'']"
proof -
  let ?f = "Decodable \<lparr>p_vectorizer = Some (Some ()), p_dataframe = Some [''A''],
          p_similarity_matrix = Some (Some [ [1 :: real] ])\<rparr>"
  let ?g = "\<lparr>vectorizer = Some (), new_df = [''A''], similarity = Some [ [1 :: real] ]\<rparr>"
  have b: "load_body ?f = Inr ?g" by (simp add: load_body_def)
  then have h: "load ?f = Inr (Plain ''Model loaded successfully!'', ?g)" by (simp add: load_def)
  note t = health_check_after_load [OF h]
  from b have "\<exists>g'. load_body ?f = Inr g' \<and> new_df g' \<noteq> [] \<and> similarity g' \<noteq> None" by simp
  with t have s: "model_status (health_check ?g) = ''loaded''" by (elim conjE) (rule iffD2)
  from t have c: "movies_count (health_check ?g) = length (new_df ?g)" by (elim conjE)
  then have c': "movies_count (health_check ?g) = length [''A'']" by simp
  show ?thesis by (intro conjI h s c')
qed

text \<open>
  The claim as stated fails twice. For an artifact with zero records the load succeeds, and
  \<open>health_check\<close> reports the model as not loaded. For an artifact that stores \<open>None\<close> as its
  matrix beside two records the load succeeds as well, and \<open>health_check\<close> reports the model
  as not loaded with a count of 2.
\<close>

theorem health_check_not_loaded_after_successful_load:
  "load (Decodable \<lparr>p_vectorizer = Some (Some ()), p_dataframe = Some [],
          p_similarity_matrix = Some (Some ([] :: real list list))\<rparr>)
     = Inr (Plain ''Model loaded successfully!'', \<lparr>vectorizer = Some (), new_df = [], similarity = Some []\<rparr>)
   \<and> model_status (health_check \<lparr>vectorizer = Some (), new_df = [], similarity = Some ([] :: real list list)\<rparr>)
     = ''not loaded''
   \<and> load (Decodable \<lparr>p_vectorizer = Some (Some ()), p_dataframe = Some [''A'', ''B''],
          p_similarity_matrix = Some (None :: real list list option)\<rparr>)
     = Inr (Plain ''Model loaded successfully!'', \<lparr>vectorizer = Some (), new_df = [''A'', ''B''], similarity = None\<rparr>)
   \<and> model_status (health_check \<lparr>vectorizer = Some (), new_df = [''A'', ''B''],
          similarity = (None :: real list list option)\<rparr>) = ''not loaded''
   \<and> movies_count (health_check \<lparr>vectorizer = Some (), new_df = [''A'', ''B''],
          similarity = (None :: real list list option)\<rparr>) = 2"
  by (simp add: load_def load_body_def health_check_def)

section \<open>Search\<close>

lemma of_char_lower:
  "(of_char (lower c) :: nat) = (if is_upper c then of_char c + 32 else of_char c)"
  by (auto simp: lower_def is_upper_def)

lemma special_code:
  "special c \<longleftrightarrow> (of_char c :: nat) \<in> {46, 94, 36, 42, 43, 63, 123, 125, 91, 93, 124, 40, 41, 92}"
proof -
  have eq: "c = d \<longleftrightarrow> (of_char c :: nat) = of_char d" for d by simp
  show ?thesis unfolding special_def backslash_def
    by (simp only: set_simps insert_iff empty_iff eq) simp
qed

lemma lower_fixes_non_letter:
  assumes "\<not> (65 \<le> (of_char c :: nat) \<and> (of_char c :: nat) \<le> 90)"
    and "\<not> (97 \<le> (of_char c :: nat) \<and> (of_char c :: nat) \<le> 122)"
    and "(of_char c :: nat) < 192"
  shows "lower c = c" and "lower d = c \<longleftrightarrow> d = c"
proof -
  have nu: "\<not> is_upper c" using assms(1,3) by (auto simp: is_upper_def)
  then show l: "lower c = c" by (simp add: lower_def)
  show "lower d = c \<longleftrightarrow> d = c"
  proof
    assume "lower d = c"
    then have e: "(of_char (lower d) :: nat) = of_char c" by simp
    have "\<not> is_upper d"
    proof
      assume u: "is_upper d"
      with e have "(of_char d :: nat) + 32 = of_char c" by (simp add: of_char_lower)
      with u assms show False by (auto simp: is_upper_def)
    qed
    with e have "(of_char d :: nat) = of_char c" by (simp add: of_char_lower)
    then show "d = c" by simp
  next
    assume "d = c"
    with l show "lower d = c" by simp
  qed
qed

lemma special_non_letter:
  assumes "special c"
  shows "\<not> (65 \<le> (of_char c :: nat) \<and> (of_char c :: nat) \<le> 90)"
    and "\<not> (97 \<le> (of_char c :: nat) \<and> (of_char c :: nat) \<le> 122)"
    and "(of_char c :: nat) < 192"
  using assms unfolding special_code by auto

lemma whitespace_non_letter:
  assumes "whitespace c"
  shows "\<not> (65 \<le> (of_char c :: nat) \<and> (of_char c :: nat) \<le> 90)"
    and "\<not> (97 \<le> (of_char c :: nat) \<and> (of_char c :: nat) \<le> 122)"
    and "(of_char c :: nat) < 192"
  using assms unfolding whitespace_def by auto

lemma lower_special:
  assumes "lower c = lower d"
  shows "special c \<longleftrightarrow> special d"
proof
  assume s: "special c"
  then have "lower c = c" by (intro lower_fixes_non_letter(1) special_non_letter)
  with assms have "lower d = c" by simp
  then have "d = c" using lower_fixes_non_letter(2) [OF special_non_letter [OF s]] by simp
  with s show "special d" by simp
next
  assume s: "special d"
  then have "lower d = d" by (intro lower_fixes_non_letter(1) special_non_letter)
  with assms have "lower c = d" by simp
  then have "c = d" using lower_fixes_non_letter(2) [OF special_non_letter [OF s]] by simp
  with s show "special c" by simp
qed

lemma lower_whitespace:
  assumes "whitespace w"
  shows "lower w = lower t \<longleftrightarrow> w = t"
proof -
  have "lower w = w" using assms by (intro lower_fixes_non_letter(1) whitespace_non_letter)
  moreover have "lower t = w \<longleftrightarrow> t = w"
    by (rule lower_fixes_non_letter(2) [OF whitespace_non_letter [OF assms]])
  ultimately show ?thesis by auto
qed

lemma whitespace_not_special: "whitespace w \<Longrightarrow> \<not> special w"
  unfolding special_code whitespace_def by auto

lemma compile_plain: "plain q \<Longrightarrow> compile q = Some (map Lit q)"
proof (induction q rule: compile.induct)
  case 1
  then show ?case by simp
next
  case (2 c)
  then show ?case by (simp add: plain_def)
next
  case (3 c e rest)
  from "3.prems" have c: "\<not> special c" and r: "plain (e # rest)" by (simp_all add: plain_def)
  from c have nb: "c \<noteq> backslash" by (simp add: special_def)
  from "3.IH"(3) [OF nb c r] have ih: "compile (e # rest) = Some (map Lit (e # rest))" .
  have "compile (c # e # rest) = map_option ((#) (Lit c)) (compile (e # rest))"
    using nb c by (simp only: compile.simps if_False)
  also have "\<dots> = Some (map Lit (c # e # rest))" by (simp only: ih option.map list.map)
  finally show ?case .
qed

lemma plain_lower:
  "map lower q = map lower q' \<Longrightarrow> plain q \<Longrightarrow> plain q'"
proof (induction q arbitrary: q')
  case Nil
  then show ?case by (simp add: plain_def)
next
  case (Cons c q)
  from Cons.prems(1) obtain d r where q': "q' = d # r" by (cases q') auto
  with Cons.prems have eq: "lower c = lower d" "map lower q = map lower r" by simp_all
  from Cons.prems have pl: "\<not> special c" "plain q" by (simp_all add: plain_def)
  from eq(1) pl(1) have "\<not> special d" using lower_special by blast
  moreover from Cons.IH [OF eq(2) pl(2)] have "plain r" .
  ultimately show ?case using q' by (simp add: plain_def)
qed

lemma match_here_lower:
  "map lower q = map lower q' \<Longrightarrow> match_here (map Lit q) s = match_here (map Lit q') s"
proof (induction q arbitrary: q' s)
  case Nil
  then show ?case by simp
next
  case (Cons c q)
  from Cons.prems(1) obtain d r where q': "q' = d # r" by (cases q') auto
  with Cons.prems have eq: "lower c = lower d" "map lower q = map lower r" by simp_all
  show ?case
  proof (cases s)
    case Nil
    with q' show ?thesis by simp
  next
    case s: (Cons t ts)
    from Cons.IH [OF eq(2)] have "match_here (map Lit q) ts = match_here (map Lit r) ts" .
    with s q' eq(1) show ?thesis by simp
  qed
qed

lemma re_search_lower:
  assumes "map lower q = map lower q'"
  shows "re_search (map Lit q) s = re_search (map Lit q') s"
proof (induction s)
  case Nil
  show ?case using match_here_lower [OF assms] by simp
next
  case (Cons t ts)
  then show ?case using match_here_lower [OF assms] by simp
qed

lemma match_here_whitespace:
  "list_all whitespace q \<Longrightarrow> match_here (map Lit q) s \<longleftrightarrow> prefix q s"
proof (induction q arbitrary: s)
  case Nil
  then show ?case by simp
next
  case (Cons w q)
  show ?case
  proof (cases s)
    case Nil
    then show ?thesis by simp
  next
    case s: (Cons t ts)
    from Cons.prems have w: "whitespace w" and q: "list_all whitespace q" by simp_all
    from Cons.IH [OF q] have "match_here (map Lit q) ts \<longleftrightarrow> prefix q ts" .
    with s lower_whitespace [OF w] show ?thesis by simp
  qed
qed

lemma re_search_whitespace:
  assumes "list_all whitespace q"
  shows "re_search (map Lit q) s \<longleftrightarrow> sublist q s"
proof (induction s)
  case Nil
  show ?case using match_here_whitespace [OF assms, of "[]"] by simp
next
  case (Cons t ts)
  then show ?case using match_here_whitespace [OF assms] by (simp add: sublist_Cons_right)
qed

lemma plain_whitespace: "list_all whitespace q \<Longrightarrow> plain q"
  by (induction q) (simp_all add: plain_def whitespace_not_special)

lemma re_search_Nil: "re_search [] s"
  by (cases s) simp_all

lemma search_movies_plain:
  assumes "new_df g \<noteq> []" "plain query"
  shows "search_movies g query limit =
    Some (Found query (slice_to limit (filter (re_search (map Lit query)) (new_df g)))
       (length (slice_to limit (filter (re_search (map Lit query)) (new_df g)))))"
  using assms by (simp add: search_movies_def compile_plain Let_def)

text \<open>
  Claim C2, as amended. \<open>search_movies\<close> validates nothing: on a loaded table, a query
  made of white space only is searched for like any other text, and the answer lists, in
  record order and cut by the slice \<open>[:limit]\<close>, the names that contain the query as a
  substring. For the empty query these are all names: the answer is the slice \<open>[:limit]\<close>
  of the whole catalog.
\<close>

theorem search_movies_blank_query:
  assumes "new_df g \<noteq> []" and "list_all whitespace query"
  shows "search_movies g query limit =
           Some (Found query (slice_to limit (filter (sublist query) (new_df g)))
             (length (slice_to limit (filter (sublist query) (new_df g)))))
       \<and> search_movies g [] limit =
           Some (Found [] (slice_to limit (new_df g)) (length (slice_to limit (new_df g))))"
proof
  have "re_search (map Lit query) = sublist query"
    using re_search_whitespace [OF assms(2)] by (intro ext) simp
  then show "search_movies g query limit =
           Some (Found query (slice_to limit (filter (sublist query) (new_df g)))
             (length (slice_to limit (filter (sublist query) (new_df g)))))"
    using search_movies_plain [OF assms(1) plain_whitespace [OF assms(2)], of limit] by simp
next
  have "plain []" by (simp add: plain_def)
  from search_movies_plain [OF assms(1) this, of limit]
  show "search_movies g [] limit =
           Some (Found [] (slice_to limit (new_df g)) (length (slice_to limit (new_df g))))"
    by (simp add: re_search_Nil)
qed

theorem search_movies_blank_query_witness:
  "new_df \<lparr>vectorizer = Some (), new_df = [''Toy Story'', ''Heat''], similarity = Some [ [1, 0], [0, 1 :: real] ]\<rparr> \<noteq> []
   \<and> list_all whitespace '' ''
   \<and> search_movies \<lparr>vectorizer = Some (), new_df = [''Toy Story'', ''Heat''], similarity = Some [ [1, 0], [0, 1 :: real] ]\<rparr> '' '' 10
       = Some (Found '' '' [''Toy Story''] 1)
   \<and> search_movies \<lparr>vectorizer = Some (), new_df = [''Toy Story'', ''Heat''], similarity = Some [ [1, 0], [0, 1 :: real] ]\<rparr> [] 10
       = Some (Found [] [''Toy Story'', ''Heat''] 2)"
proof -
  let ?g = "\<lparr>vectorizer = Some (), new_df = [''Toy Story'', ''Heat''], similarity = Some [ [1, 0], [0, 1 :: real] ]\<rparr>"
  have h1: "new_df ?g \<noteq> []" by simp
  have h2: "list_all whitespace '' ''" by (simp add: whitespace_def)
  have f: "filter (sublist '' '') (new_df ?g) = [''Toy Story'']" by code_simp
  have s1: "slice_to 10 [''Toy Story''] = [''Toy Story'']" by (simp add: slice_to_def)
  have s2: "slice_to 10 (new_df ?g) = [''Toy Story'', ''Heat'']" by (simp add: slice_to_def)
  note t = search_movies_blank_query [OF h1 h2, of 10]
  from t have a: "search_movies ?g '' '' 10 = Some (Found '' '' [''Toy Story''] 1)"
    unfolding f s1 by simp
  from t have b: "search_movies ?g [] 10 = Some (Found [] [''Toy Story'', ''Heat''] 2)"
    unfolding s2 by simp
  show ?thesis by (intro conjI h1 h2 a b)
qed

text \<open>
  The claim as stated fails: the empty query returns the catalog, and a query of one
  space returns the names that contain a space.
\<close>

theorem search_movies_empty_query_lists_catalog:
  "search_movies \<lparr>vectorizer = Some (), new_df = [''Toy Story'', ''Heat''],
        similarity = Some [ [1, 0], [0, 1 :: real] ]\<rparr> [] 10
     = Some (Found [] [''Toy Story'', ''Heat''] 2)
   \<and> search_movies \<lparr>vectorizer = Some (), new_df = [''Toy Story'', ''Heat''],
        similarity = Some [ [1, 0], [0, 1 :: real] ]\<rparr> '' '' 10
     = Some (Found '' '' [''Toy Story''] 1)"
  by code_simp

text \<open>
  On a loaded table, two queries without a metacharacter of regular expressions that have
  the same lower-case form get the same list of names and the same count: for such
  queries the search ignores the case of the query.
\<close>

lemma search_plain_query_case_invariant:
  assumes "new_df g \<noteq> []" and "plain q" and "map lower q = map lower q'"
  shows "\<exists>ms. search_movies g q limit = Some (Found q ms (length ms))
             \<and> search_movies g q' limit = Some (Found q' ms (length ms))"
proof -
  from assms(3,2) have pq: "plain q'" by (rule plain_lower)
  have "re_search (map Lit q) = re_search (map Lit q')"
    using re_search_lower [OF assms(3)] by (intro ext)
  with search_movies_plain [OF assms(1,2), of limit]
    search_movies_plain [OF assms(1) pq, of limit]
  show ?thesis by simp
qed

text \<open>
  Claim C9. The search is written to ignore the case of the query (\<open>case=False\<close>, and the
  comment of line 158 says so), and \<open>get_recommendation\<close> compares names exactly. On the
  snapshot of \<open>Dark Knight\<close> and \<open>Heat\<close> the code does both: \<open>dark\<close> and \<open>DARK\<close> find the same
  name, \<open>dark knight\<close> is not found and \<open>Dark Knight\<close> gets its recommendation. But the query
  is compiled as a regular expression, and there the search depends on the case of the
  query: on the snapshot of \<open>1917\<close> and \<open>Heat\<close>, a backslash followed by \<open>d\<close> returns the name
  made of digits, a backslash followed by \<open>D\<close> returns the other name, and the two queries
  differ only in the case of a letter.
\<close>

theorem search_depends_on_query_case:
  "map lower [backslash, CHR ''d''] = map lower [backslash, CHR ''D'']
   \<and> search_movies \<lparr>vectorizer = Some (), new_df = [''1917'', ''Heat''],
        similarity = Some [ [1, 0], [0, 1 :: real] ]\<rparr> [backslash, CHR ''d''] 10
     = Some (Found [backslash, CHR ''d''] [''1917''] 1)
   \<and> search_movies \<lparr>vectorizer = Some (), new_df = [''1917'', ''Heat''],
        similarity = Some [ [1, 0], [0, 1 :: real] ]\<rparr> [backslash, CHR ''D''] 10
     = Some (Found [backslash, CHR ''D''] [''Heat''] 1)
   \<and> search_movies \<lparr>vectorizer = Some (), new_df = [''Dark Knight'', ''Heat''],
        similarity = Some [ [1, 1 / 2], [1 / 2, 1 :: real] ]\<rparr> ''dark'' 10
     = Some (Found ''dark'' [''Dark Knight''] 1)
   \<and> search_movies \<lparr>vectorizer = Some (), new_df = [''Dark Knight'', ''Heat''],
        similarity = Some [ [1, 1 / 2], [1 / 2, 1 :: real] ]\<rparr> ''DARK'' 10
     = Some (Found ''DARK'' [''Dark Knight''] 1)
   \<and> get_recommendation \<lparr>vectorizer = Some (), new_df = [''Dark Knight'', ''Heat''],
        similarity = Some [ [1, 1 / 2], [1 / 2, 1 :: real] ]\<rparr> ''dark knight''
     = Error (not_found_message ''dark knight'')
   \<and> get_recommendation \<lparr>vectorizer = Some (), new_df = [''Dark Knight'', ''Heat''],
        similarity = Some [ [1, 1 / 2], [1 / 2, 1 :: real] ]\<rparr> ''Dark Knight''
     = Recommended [''Heat''] ''Dark Knight''"
proof (intro conjI)
  show "map lower [backslash, CHR ''d''] = map lower [backslash, CHR ''D'']"
    by code_simp
  show "search_movies \<lparr>vectorizer = Some (), new_df = [''1917'', ''Heat''],
        similarity = Some [ [1, 0], [0, 1 :: real] ]\<rparr> [backslash, CHR ''d''] 10
     = Some (Found [backslash, CHR ''d''] [''1917''] 1)"
    by code_simp
  show "search_movies \<lparr>vectorizer = Some (), new_df = [''1917'', ''Heat''],
        similarity = Some [ [1, 0], [0, 1 :: real] ]\<rparr> [backslash, CHR ''D''] 10
     = Some (Found [backslash, CHR ''D''] [''Heat''] 1)"
    by code_simp
  show "search_movies \<lparr>vectorizer = Some (), new_df = [''Dark Knight'', ''Heat''],
        similarity = Some [ [1, 1 / 2], [1 / 2, 1 :: real] ]\<rparr> ''dark'' 10
     = Some (Found ''dark'' [''Dark Knight''] 1)"
    by code_simp
  show "search_movies \<lparr>vectorizer = Some (), new_df = [''Dark Knight'', ''Heat''],
        similarity = Some [ [1, 1 / 2], [1 / 2, 1 :: real] ]\<rparr> ''DARK'' 10
     = Some (Found ''DARK'' [''Dark Knight''] 1)"
    by code_simp
  show "get_recommendation \<lparr>vectorizer = Some (), new_df = [''Dark Knight'', ''Heat''],
        similarity = Some [ [1, 1 / 2], [1 / 2, 1 :: real] ]\<rparr> ''dark knight''
     = Error (not_found_message ''dark knight'')"
    by (simp add: get_recommendation_def recommend_def)
  show "get_recommendation \<lparr>vectorizer = Some (), new_df = [''Dark Knight'', ''Heat''],
        similarity = Some [ [1, 1 / 2], [1 / 2, 1 :: real] ]\<rparr> ''Dark Knight''
     = Recommended [''Heat''] ''Dark Knight''"
    by (simp add: get_recommendation_def recommend_def movie_index_def matching_rows_def
        movies_list_def sorted_reverse_def enumerate_eq_zip iloc_def upt_rec)
qed

end
